theory Spec2Isabelle
  imports
    Complex_Main
    "HOL-Library.Char_ord"
    "HOL-Library.List_Lexorder"
    "HOL-Library.Product_Lexorder"
begin

section \<open>Strings\<close>

text \<open>
  Python strings are modelled as \<^typ>\<open>string\<close> (lists of 8-bit characters).  The model
  coincides with Python on ASCII text: \<open>lower\<close> and \<open>upper\<close> map the ASCII letters and
  leave every other character alone, and strings are ordered lexicographically by
  character code, as Python orders them by code point.  The non-ASCII characters of the
  program's own message literals are written as their UTF-8 bytes.
\<close>

definition lower_char :: "char \<Rightarrow> char" where
  "lower_char c =
     (if 65 \<le> (of_char c :: nat) \<and> (of_char c :: nat) \<le> 90
      then char_of ((of_char c :: nat) + 32) else c)"

definition upper_char :: "char \<Rightarrow> char" where
  "upper_char c =
     (if 97 \<le> (of_char c :: nat) \<and> (of_char c :: nat) \<le> 122
      then char_of ((of_char c :: nat) - 32) else c)"

text \<open>\<open>str.lower()\<close> and \<open>str.upper()\<close>.\<close>

definition lower :: "string \<Rightarrow> string" where
  "lower s = map lower_char s"

definition upper :: "string \<Rightarrow> string" where
  "upper s = map upper_char s"

text \<open>\<open>needle in hay\<close> on strings: \<open>needle\<close> occurs as a contiguous substring.\<close>

fun startswith :: "string \<Rightarrow> string \<Rightarrow> bool" where
  "startswith hay [] = True"
| "startswith [] (c # cs) = False"
| "startswith (h # hs) (c # cs) = (h = c \<and> startswith hs cs)"

fun str_in :: "string \<Rightarrow> string \<Rightarrow> bool" where
  "str_in needle [] = (needle = [])"
| "str_in needle (h # hs) = (startswith (h # hs) needle \<or> str_in needle hs)"

text \<open>\<open>str.strip()\<close>: removes leading and trailing whitespace (the ASCII whitespace
  characters of \<open>str.isspace\<close>).\<close>

definition isspace :: "char \<Rightarrow> bool" where
  "isspace c = ((of_char c :: nat) \<in> {9, 10, 11, 12, 13, 28, 29, 30, 31, 32})"

definition strip :: "string \<Rightarrow> string" where
  "strip s = rev (dropWhile isspace (rev (dropWhile isspace s)))"

text \<open>Decimal rendering of integers, as \<open>str(n)\<close> and \<open>f"{n}"\<close> produce it.\<close>

definition digit_char :: "nat \<Rightarrow> char" where
  "digit_char d = char_of (48 + d)"

function str_nat :: "nat \<Rightarrow> string" where
  "str_nat n = (if n < 10 then [digit_char n] else str_nat (n div 10) @ [digit_char (n mod 10)])"
  by pat_completeness auto
termination
  by (relation "measure id") auto

declare str_nat.simps [simp del]

definition str_int :: "int \<Rightarrow> string" where
  "str_int i = (if i < 0 then CHR ''-'' # str_nat (nat (- i)) else str_nat (nat i))"

text \<open>The format specification \<open>03d\<close> on a non-negative integer: at least three digits,
  padded with zeros on the left.\<close>

definition format_03d :: "nat \<Rightarrow> string" where
  "format_03d n = replicate (3 - length (str_nat n)) CHR ''0'' @ str_nat n"

section \<open>\<open>difflib\<close>: the similarity ratio and \<open>get_close_matches\<close>\<close>

text \<open>
  \<open>handle_query\<close> calls \<open>difflib.get_close_matches\<close> of the Python standard library.
  The definitions below follow \<open>difflib.SequenceMatcher\<close> (with \<open>isjunk=None\<close> and
  \<open>autojunk=True\<close>, as \<open>get_close_matches\<close> constructs it) and \<open>heapq.nlargest\<close> for
  \<open>n = 1\<close>.  Sequence \<open>a\<close> is the candidate, sequence \<open>b\<close> the word looked for.

  Scores are the exact rationals \<open>2 * M / T\<close>.  Python computes them as IEEE doubles; on
  strings shorter than \<open>2 ^ 26\<close> characters the doubles compare with each other and with
  the cutoff exactly as the rationals do.
\<close>

text \<open>\<open>__chain_b\<close>: for each element of \<open>b\<close>, the increasing list of the positions where
  it occurs.\<close>

definition b2j_full :: "string \<Rightarrow> (char \<rightharpoonup> nat list)" where
  "b2j_full b =
     fold (\<lambda>(i, elt) m. m(elt \<mapsto> (case m elt of None \<Rightarrow> [] | Some indices \<Rightarrow> indices) @ [i]))
       (enumerate 0 b) Map.empty"

text \<open>The purge of popular elements: when \<open>b\<close> has at least 200 elements, every element
  occurring more than \<open>len(b) // 100 + 1\<close> times is deleted from \<open>b2j\<close>.  No element is
  junk, since \<open>isjunk\<close> is \<open>None\<close>.\<close>

definition chain_b :: "string \<Rightarrow> (char \<rightharpoonup> nat list)" where
  "chain_b b = (\<lambda>elt.
     case b2j_full b elt of
       None \<Rightarrow> None
     | Some idxs \<Rightarrow>
         if 200 \<le> length b \<and> length b div 100 + 1 < length idxs then None else Some idxs)"

text \<open>\<open>j2len.get(j-1, 0)\<close>: at \<open>j = 0\<close> the key is \<open>-1\<close>, which is never present.\<close>

definition j2lenget :: "(nat \<rightharpoonup> nat) \<Rightarrow> nat \<Rightarrow> nat" where
  "j2lenget j2len j = (if j = 0 then 0 else (case j2len (j - 1) of None \<Rightarrow> 0 | Some v \<Rightarrow> v))"

text \<open>The inner loop of \<open>find_longest_match\<close> over the positions \<open>j\<close> of \<open>a[i]\<close> in \<open>b\<close>:
  \<open>continue\<close> below \<open>blo\<close>, \<open>break\<close> at \<open>bhi\<close>.  The state is \<open>newj2len\<close> and the triple
  \<open>(besti, bestj, bestsize)\<close>; the new \<open>besti\<close> is \<open>i-k+1\<close>, where \<open>k \<le> i + 1\<close>.\<close>

fun flm_inner ::
  "(nat \<rightharpoonup> nat) \<Rightarrow> nat \<Rightarrow> nat \<Rightarrow> nat \<Rightarrow> nat list \<Rightarrow>
   (nat \<rightharpoonup> nat) \<times> (nat \<times> nat \<times> nat) \<Rightarrow> (nat \<rightharpoonup> nat) \<times> (nat \<times> nat \<times> nat)" where
  "flm_inner j2len i blo bhi [] st = st"
| "flm_inner j2len i blo bhi (j # js) (newj2len, best) =
     (if j < blo then flm_inner j2len i blo bhi js (newj2len, best)
      else if bhi \<le> j then (newj2len, best)
      else
        let k = j2lenget j2len j + 1
        in flm_inner j2len i blo bhi js
             (newj2len(j \<mapsto> k),
              if snd (snd best) < k then (i + 1 - k, j + 1 - k, k) else best))"

text \<open>The outer loop \<open>for i in range(alo, ahi)\<close>.\<close>

fun flm_outer ::
  "string \<Rightarrow> (char \<rightharpoonup> nat list) \<Rightarrow> nat \<Rightarrow> nat \<Rightarrow> nat list \<Rightarrow>
   (nat \<rightharpoonup> nat) \<times> (nat \<times> nat \<times> nat) \<Rightarrow> (nat \<rightharpoonup> nat) \<times> (nat \<times> nat \<times> nat)" where
  "flm_outer a b2j blo bhi [] st = st"
| "flm_outer a b2j blo bhi (i # is) (j2len, best) =
     flm_outer a b2j blo bhi is
       (flm_inner j2len i blo bhi (case b2j (a ! i) of None \<Rightarrow> [] | Some js \<Rightarrow> js)
          (Map.empty, best))"

text \<open>The two \<open>while\<close> loops that extend the block over matching elements that are not
  junk.  The two loops after them extend over junk elements only and never run: the set
  \<open>bjunk\<close> is empty.\<close>

function extend_left :: "string \<Rightarrow> string \<Rightarrow> nat \<Rightarrow> nat \<Rightarrow> nat \<times> nat \<times> nat \<Rightarrow> nat \<times> nat \<times> nat" where
  "extend_left a b alo blo (besti, bestj, bestsize) =
     (if alo < besti \<and> blo < bestj \<and> a ! (besti - 1) = b ! (bestj - 1)
      then extend_left a b alo blo (besti - 1, bestj - 1, bestsize + 1)
      else (besti, bestj, bestsize))"
  by pat_completeness auto
termination
  by (relation "measure (\<lambda>(a, b, alo, blo, besti, bestj, bestsize). besti)") auto

function extend_right :: "string \<Rightarrow> string \<Rightarrow> nat \<Rightarrow> nat \<Rightarrow> nat \<times> nat \<times> nat \<Rightarrow> nat \<times> nat \<times> nat" where
  "extend_right a b ahi bhi (besti, bestj, bestsize) =
     (if besti + bestsize < ahi \<and> bestj + bestsize < bhi
         \<and> a ! (besti + bestsize) = b ! (bestj + bestsize)
      then extend_right a b ahi bhi (besti, bestj, bestsize + 1)
      else (besti, bestj, bestsize))"
  by pat_completeness auto
termination
  by (relation "measure (\<lambda>(a, b, ahi, bhi, besti, bestj, bestsize). ahi - (besti + bestsize))") auto

declare extend_left.simps [simp del] extend_right.simps [simp del]

definition find_longest_match ::
  "string \<Rightarrow> string \<Rightarrow> (char \<rightharpoonup> nat list) \<Rightarrow> nat \<Rightarrow> nat \<Rightarrow> nat \<Rightarrow> nat \<Rightarrow> nat \<times> nat \<times> nat" where
  "find_longest_match a b b2j alo ahi blo bhi =
     extend_right a b ahi bhi
       (extend_left a b alo blo
          (snd (flm_outer a b2j blo bhi [alo..<ahi] (Map.empty, (alo, blo, 0)))))"

subsection \<open>Bounds of the longest match\<close>

definition j2len_ok :: "nat \<Rightarrow> nat \<Rightarrow> nat \<Rightarrow> (nat \<rightharpoonup> nat) \<Rightarrow> bool" where
  "j2len_ok blo bhi m j2len = (\<forall>j v. j2len j = Some v \<longrightarrow> v \<le> m \<and> blo + v \<le> j + 1 \<and> j < bhi)"

definition best_ok :: "nat \<Rightarrow> nat \<Rightarrow> nat \<Rightarrow> nat \<Rightarrow> nat \<times> nat \<times> nat \<Rightarrow> bool" where
  "best_ok alo ahi blo bhi best =
     (case best of (i, j, k) \<Rightarrow>
        alo \<le> i \<and> blo \<le> j \<and> ((k = 0 \<and> i = alo \<and> j = blo) \<or> (i + k \<le> ahi \<and> j + k \<le> bhi)))"

text \<open>The block returned by \<open>find_longest_match\<close> lies inside the window it was asked
  about, or is the empty block at the window's start.  The loop of \<open>get_matching_blocks\<close>
  terminates because of these bounds.\<close>

lemma flm_inner_bounds:
  assumes "j2len_ok blo bhi (i - alo) j2len" "alo \<le> i" "i < ahi"
    and "j2len_ok blo bhi (i + 1 - alo) new" "best_ok alo ahi blo bhi best"
    and "flm_inner j2len i blo bhi js (new, best) = (new', best')"
  shows "j2len_ok blo bhi (i + 1 - alo) new' \<and> best_ok alo ahi blo bhi best'"
  using assms(4-6)
proof (induction js arbitrary: new best)
  case Nil
  then show ?case by simp
next
  case (Cons j js)
  show ?case
  proof (cases "j < blo \<or> bhi \<le> j")
    case True
    with Cons show ?thesis by (auto split: if_splits)
  next
    case False
    define k where "k = j2lenget j2len j + 1"
    have k1: "k \<le> i + 1 - alo" and k2: "blo + k \<le> j + 1"
      using assms(1,2) False
      by (auto simp: k_def j2lenget_def j2len_ok_def split: option.splits) (fastforce+)
    have new_ok: "j2len_ok blo bhi (i + 1 - alo) (new(j \<mapsto> k))"
      using Cons.prems(1) k1 k2 False by (auto simp: j2len_ok_def)
    have best_ok': "best_ok alo ahi blo bhi (if snd (snd best) < k then (i + 1 - k, j + 1 - k, k) else best)"
      using assms(2,3) Cons.prems(2) k1 k2 False by (auto simp: best_ok_def)
    have "flm_inner j2len i blo bhi js (new(j \<mapsto> k), if snd (snd best) < k then (i + 1 - k, j + 1 - k, k) else best) = (new', best')"
      using Cons.prems(3) False by (auto simp add: k_def Let_def split: if_splits)
    from Cons.IH[OF new_ok best_ok' this] show ?thesis .
  qed
qed

lemma flm_outer_bounds:
  assumes "j2len_ok blo bhi (m - alo) j2len" "alo \<le> m" "best_ok alo ahi blo bhi best"
  shows "best_ok alo ahi blo bhi (snd (flm_outer a b2j blo bhi [m..<ahi] (j2len, best)))"
  using assms
proof (induction "ahi - m" arbitrary: m j2len best)
  case 0
  then show ?case by simp
next
  case (Suc n)
  then have lt: "m < ahi" by simp
  obtain new' best' where step:
    "flm_inner j2len m blo bhi (case b2j (a ! m) of None \<Rightarrow> [] | Some js \<Rightarrow> js) (Map.empty, best) = (new', best')"
    by (cases "flm_inner j2len m blo bhi (case b2j (a ! m) of None \<Rightarrow> [] | Some js \<Rightarrow> js) (Map.empty, best)")
  have e: "j2len_ok blo bhi (m + 1 - alo) Map.empty" by (simp add: j2len_ok_def)
  from flm_inner_bounds[OF Suc.prems(1,2) lt e Suc.prems(3) step]
  have n: "j2len_ok blo bhi (Suc m - alo) new'" and b: "best_ok alo ahi blo bhi best'" by simp_all
  have "n = ahi - Suc m" using Suc.hyps(2) by simp
  from Suc.hyps(1)[OF this n _ b] Suc.prems(2)
  have "best_ok alo ahi blo bhi (snd (flm_outer a b2j blo bhi [Suc m..<ahi] (new', best')))" by simp
  then show ?case using lt step by (simp add: upt_conv_Cons)
qed

lemma extend_left_bounds:
  "best_ok alo ahi blo bhi best \<Longrightarrow> best_ok alo ahi blo bhi (extend_left a b alo blo best)"
proof (induction a b alo blo best rule: extend_left.induct)
  case (1 a b alo blo besti bestj bestsize)
  show ?case
  proof (cases "alo < besti \<and> blo < bestj \<and> a ! (besti - 1) = b ! (bestj - 1)")
    case True
    have "best_ok alo ahi blo bhi (besti - 1, bestj - 1, bestsize + 1)"
      using "1.prems" True by (auto simp: best_ok_def)
    from "1.IH"[OF True this] show ?thesis using True by (subst extend_left.simps) simp
  next
    case False
    then show ?thesis using "1.prems" by (subst extend_left.simps) auto
  qed
qed

lemma extend_right_bounds:
  "best_ok alo ahi blo bhi best \<Longrightarrow> best_ok alo ahi blo bhi (extend_right a b ahi bhi best)"
proof (induction a b ahi bhi best rule: extend_right.induct)
  case (1 a b ahi bhi besti bestj bestsize)
  show ?case
  proof (cases "besti + bestsize < ahi \<and> bestj + bestsize < bhi
         \<and> a ! (besti + bestsize) = b ! (bestj + bestsize)")
    case True
    have "best_ok alo ahi blo bhi (besti, bestj, bestsize + 1)"
      using "1.prems" True by (auto simp: best_ok_def)
    from "1.IH"[OF True this] show ?thesis using True by (subst extend_right.simps) simp
  next
    case False
    then show ?thesis using "1.prems" by (subst extend_right.simps) auto
  qed
qed

lemma find_longest_match_bounds:
  "best_ok alo ahi blo bhi (find_longest_match a b b2j alo ahi blo bhi)"
proof -
  have 1: "j2len_ok blo bhi (alo - alo) Map.empty" by (simp add: j2len_ok_def)
  have 2: "best_ok alo ahi blo bhi (alo, blo, 0)" by (simp add: best_ok_def)
  show ?thesis
    unfolding find_longest_match_def
    by (intro extend_right_bounds extend_left_bounds flm_outer_bounds[OF 1 _ 2]) simp
qed


subsection \<open>\<open>get_matching_blocks\<close> and the ratios\<close>

text \<open>The \<open>while queue\<close> loop.  The queue is a stack (\<open>append\<close> and \<open>pop\<close> work at the same
  end): its top is the head of the list.\<close>

function matching_loop ::
  "string \<Rightarrow> string \<Rightarrow> (char \<rightharpoonup> nat list) \<Rightarrow> (nat \<times> nat \<times> nat \<times> nat) list \<Rightarrow>
   (nat \<times> nat \<times> nat) list \<Rightarrow> (nat \<times> nat \<times> nat) list" where
  "matching_loop a b b2j [] matching_blocks = matching_blocks"
| "matching_loop a b b2j ((alo, ahi, blo, bhi) # queue) matching_blocks =
     (case find_longest_match a b b2j alo ahi blo bhi of (i, j, k) \<Rightarrow>
        if k \<noteq> 0 then
          matching_loop a b b2j
            ((if i + k < ahi \<and> j + k < bhi then [(i + k, ahi, j + k, bhi)] else []) @
             (if alo < i \<and> blo < j then [(alo, i, blo, j)] else []) @ queue)
            (matching_blocks @ [(i, j, k)])
        else matching_loop a b b2j queue matching_blocks)"
  by pat_completeness auto
termination
proof (relation "measure (\<lambda>(a, b, b2j, queue, blocks).
          sum_list (map (\<lambda>(alo, ahi, blo, bhi). 2 * (ahi - alo) + 1) queue))", goal_cases)
  case 1
  show ?case by simp
next
  case (2 a b b2j alo ahi blo bhi queue blocks i rest j k)
  have "best_ok alo ahi blo bhi (i, j, k)"
    using find_longest_match_bounds[of alo ahi blo bhi a b b2j] 2(1,2) by simp
  then have "alo \<le> i" "i + k \<le> ahi"
    using 2(3) by (auto simp: best_ok_def)
  then show ?case using 2(3) by auto
next
  case 3
  then show ?case by simp
qed

declare matching_loop.simps [simp del]


text \<open>The pass over the sorted blocks that merges adjacent ones, started from
  \<open>i1 = j1 = k1 = 0\<close>; it returns \<open>non_adjacent\<close> and the pending block.\<close>

fun collapse_loop ::
  "(nat \<times> nat \<times> nat) list \<Rightarrow> nat \<times> nat \<times> nat \<Rightarrow> (nat \<times> nat \<times> nat) list \<Rightarrow>
   (nat \<times> nat \<times> nat) list \<times> (nat \<times> nat \<times> nat)" where
  "collapse_loop [] (i1, j1, k1) non_adjacent = (non_adjacent, (i1, j1, k1))"
| "collapse_loop ((i2, j2, k2) # blocks) (i1, j1, k1) non_adjacent =
     (if i1 + k1 = i2 \<and> j1 + k1 = j2 then collapse_loop blocks (i1, j1, k1 + k2) non_adjacent
      else collapse_loop blocks (i2, j2, k2)
             (if k1 \<noteq> 0 then non_adjacent @ [(i1, j1, k1)] else non_adjacent))"

definition get_matching_blocks :: "string \<Rightarrow> string \<Rightarrow> (nat \<times> nat \<times> nat) list" where
  "get_matching_blocks a b =
     (let la = length a; lb = length b;
          matching_blocks = sort (matching_loop a b (chain_b b) [(0, la, 0, lb)] [])
      in case collapse_loop matching_blocks (0, 0, 0) [] of
           (non_adjacent, (i1, j1, k1)) \<Rightarrow>
             (if k1 \<noteq> 0 then non_adjacent @ [(i1, j1, k1)] else non_adjacent) @ [(la, lb, 0)])"

definition calculate_ratio :: "nat \<Rightarrow> nat \<Rightarrow> rat" where
  "calculate_ratio matches len = (if len \<noteq> 0 then 2 * of_nat matches / of_nat len else 1)"

definition ratio :: "string \<Rightarrow> string \<Rightarrow> rat" where
  "ratio a b =
     calculate_ratio (sum_list (map (\<lambda>(i, j, k). k) (get_matching_blocks a b))) (length a + length b)"

text \<open>\<open>quick_ratio\<close>: \<open>fullbcount\<close> counts the elements of \<open>b\<close>; \<open>avail\<close> holds what is left of
  each count while \<open>a\<close> is read, and goes negative.\<close>

definition fullbcount :: "string \<Rightarrow> (char \<rightharpoonup> int)" where
  "fullbcount b =
     fold (\<lambda>elt m. m(elt \<mapsto> (case m elt of None \<Rightarrow> 0 | Some c \<Rightarrow> c) + 1)) b Map.empty"

fun quick_loop :: "(char \<rightharpoonup> int) \<Rightarrow> string \<Rightarrow> (char \<rightharpoonup> int) \<times> nat \<Rightarrow> (char \<rightharpoonup> int) \<times> nat" where
  "quick_loop fbc [] st = st"
| "quick_loop fbc (elt # rest) (avail, matches) =
     (let numb = (case avail elt of Some v \<Rightarrow> v
                  | None \<Rightarrow> (case fbc elt of None \<Rightarrow> 0 | Some c \<Rightarrow> c))
      in quick_loop fbc rest (avail(elt \<mapsto> numb - 1), if 0 < numb then matches + 1 else matches))"

definition quick_ratio :: "string \<Rightarrow> string \<Rightarrow> rat" where
  "quick_ratio a b =
     calculate_ratio (snd (quick_loop (fullbcount b) a (Map.empty, 0))) (length a + length b)"

definition real_quick_ratio :: "string \<Rightarrow> string \<Rightarrow> rat" where
  "real_quick_ratio a b = calculate_ratio (min (length a) (length b)) (length a + length b)"

text \<open>\<open>heapq.nlargest(1, result)\<close> is \<open>max(result)\<close> with a default: the first of the greatest
  items, where an item replaces the current one only when it is strictly greater.  Items
  are tuples \<open>(score, x)\<close> and Python compares tuples lexicographically.\<close>

fun max_loop :: "rat \<times> string \<Rightarrow> (rat \<times> string) list \<Rightarrow> rat \<times> string" where
  "max_loop best [] = best"
| "max_loop best (item # items) = max_loop (if best < item then item else best) items"

definition nlargest1 :: "(rat \<times> string) list \<Rightarrow> (rat \<times> string) list" where
  "nlargest1 result = (case result of [] \<Rightarrow> [] | item # items \<Rightarrow> [max_loop item items])"

text \<open>\<open>get_close_matches(word, possibilities, n=1, cutoff)\<close>; \<open>scored\<close> is the list \<open>result\<close>
  before \<open>nlargest\<close>.  The source calls it with \<open>cutoff = 0.6\<close>.\<close>

definition close_enough :: "string \<Rightarrow> rat \<Rightarrow> string \<Rightarrow> bool" where
  "close_enough word cutoff x =
     (cutoff \<le> real_quick_ratio x word \<and> cutoff \<le> quick_ratio x word \<and> cutoff \<le> ratio x word)"

definition scored :: "string \<Rightarrow> string list \<Rightarrow> rat \<Rightarrow> (rat \<times> string) list" where
  "scored word possibilities cutoff =
     map (\<lambda>x. (ratio x word, x)) (filter (close_enough word cutoff) possibilities)"

definition get_close_matches :: "string \<Rightarrow> string list \<Rightarrow> rat \<Rightarrow> string list" where
  "get_close_matches word possibilities cutoff = map snd (nlargest1 (scored word possibilities cutoff))"

section \<open>The data of the chatbot\<close>

text \<open>
  \<open>self.data\<close> is the decoded JSON snapshot.  Objects whose keys the program reads by
  fixed names are records; JSON numbers are integers; the menu and the opening hours,
  which the program looks up by computed or optional keys, are maps.
\<close>

record restaurant_info =
  ri_name :: string
  ri_phone :: string
  ri_hours :: "string \<rightharpoonup> string"

record prices =
  regular :: int
  large :: int
  family :: int

record menu_item =
  mi_id :: string
  mi_name :: string
  mi_description :: string
  mi_price :: int
  mi_prices :: prices

record delivery_zone =
  dz_area :: string
  dz_delivery_fee :: int
  dz_min_order :: int
  dz_estimated_time :: string

text \<open>\<open>is_active\<close> is read with \<open>p.get("is_active", False)\<close>: the key may be absent.\<close>

record promotion =
  pr_title :: string
  pr_description :: string
  pr_is_active :: "bool option"

record order_item =
  oi_name :: string
  oi_total :: int

record order =
  order_id :: string
  customer_name :: string
  o_phone :: string
  o_address :: string
  o_items :: "order_item list"
  o_subtotal :: int
  o_delivery_fee :: int
  o_status :: string
  order_time :: string
  estimated_delivery :: string

record qa =
  question :: string
  answer :: string
  category :: string
  added_date :: string

record feedback =
  fb_order_id :: string
  fb_rating :: int
  fb_comment :: string
  feedback_date :: string

record popular_item =
  item_id :: string
  order_count :: int

record analytics =
  popular_items :: "popular_item list"
  peak_hours :: "string list"
  busiest_days :: "string list"

record snapshot =
  restaurant_info :: restaurant_info
  menu :: "string \<rightharpoonup> menu_item list"
  delivery_zones :: "delivery_zone list"
  promotions :: "promotion list"
  orders :: "order list"
  questions :: "qa list"
  customer_feedback :: "feedback list"
  analytics :: analytics
  staff_notes :: "string list"

datatype py_error = AttributeError | KeyError | JSONDecodeError

text \<open>A file holds the JSON text of a snapshot, or is empty (as \<open>open(..., 'w')\<close> leaves
  it), or holds something that is not JSON.\<close>

datatype file_content = Json_text snapshot | Empty_text | Other_text

text \<open>The object and the files around it.  \<open>data = None\<close> is the object on which the
  attribute \<open>data\<close> has not been assigned yet.\<close>

record world =
  data_file :: string
  data :: "snapshot option"
  files :: "string \<rightharpoonup> file_content"

section \<open>Loading and saving\<close>

text \<open>\<open>save_data\<close>: \<open>open(self.data_file, 'w')\<close> truncates the file, then \<open>json.dump\<close> reads
  \<open>self.data\<close>.\<close>

definition save_data :: "world \<Rightarrow> (py_error + unit) \<times> world" where
  "save_data w =
     (let w1 = w\<lparr>files := (files w)(data_file w \<mapsto> Empty_text)\<rparr>
      in case data w1 of
           None \<Rightarrow> (Inl AttributeError, w1)
         | Some d \<Rightarrow> (Inr (), w1\<lparr>files := (files w1)(data_file w1 \<mapsto> Json_text d)\<rparr>))"

definition default_data :: snapshot where
  "default_data =
     \<lparr>restaurant_info =
        \<lparr>ri_name = ''Pizza Hut'', ri_phone = ''(123) 456-7890'',
         ri_hours = [''monday'' \<mapsto> ''11:00 AM - 11:00 PM'']\<rparr>,
      menu = [''pizzas'' \<mapsto> [], ''sides'' \<mapsto> [], ''drinks'' \<mapsto> []],
      delivery_zones = [],
      promotions = [],
      orders = [],
      questions = [],
      customer_feedback = [],
      analytics = \<lparr>popular_items = [], peak_hours = [], busiest_days = []\<rparr>,
      staff_notes = []\<rparr>"

text \<open>\<open>create_default_data\<close> builds the default snapshot, calls \<open>self.save_data()\<close> and
  only then returns the snapshot.\<close>

definition create_default_data :: "world \<Rightarrow> (py_error + snapshot) \<times> world" where
  "create_default_data w =
     (case save_data w of
        (Inl e, w') \<Rightarrow> (Inl e, w')
      | (Inr u, w') \<Rightarrow> (Inr default_data, w'))"

text \<open>\<open>load_data\<close>: \<open>FileNotFoundError\<close> is the only exception caught.\<close>

definition load_data :: "world \<Rightarrow> (py_error + snapshot) \<times> world" where
  "load_data w =
     (case files w (data_file w) of
        None \<Rightarrow> create_default_data w
      | Some (Json_text d) \<Rightarrow> (Inr d, w)
      | Some Empty_text \<Rightarrow> (Inl JSONDecodeError, w)
      | Some Other_text \<Rightarrow> (Inl JSONDecodeError, w))"

text \<open>\<open>__init__\<close>: \<open>self.data_file = data_file; self.data = self.load_data()\<close>.\<close>

definition init :: "string \<Rightarrow> (string \<rightharpoonup> file_content) \<Rightarrow> (py_error + unit) \<times> world" where
  "init fname fs =
     (case load_data \<lparr>data_file = fname, data = None, files = fs\<rparr> of
        (Inl e, w) \<Rightarrow> (Inl e, w)
      | (Inr d, w) \<Rightarrow> (Inr (), w\<lparr>data := Some d\<rparr>))"

section \<open>The lookups\<close>

definition nl :: string where
  "nl = [CHR 0x0A]"

definition pizza_sign :: string where
  "pizza_sign = [CHR 0xF0, CHR 0x9F, CHR 0x8D, CHR 0x95]"

definition bullet :: string where
  "bullet = [CHR 0xE2, CHR 0x80, CHR 0xA2]"

definition pin_sign :: string where
  "pin_sign = [CHR 0xF0, CHR 0x9F, CHR 0x93, CHR 0x8D]"

definition party_sign :: string where
  "party_sign = [CHR 0xF0, CHR 0x9F, CHR 0x8E, CHR 0x89]"

definition fire_sign :: string where
  "fire_sign = [CHR 0xF0, CHR 0x9F, CHR 0x94, CHR 0xA5]"

definition menu_line :: "string \<Rightarrow> menu_item \<Rightarrow> string" where
  "menu_line cat item =
     (if cat = ''pizzas'' then
        bullet @ '' '' @ mi_name item @ '' - '' @
        (''RM'' @ str_int (regular (mi_prices item)) @ ''/RM'' @ str_int (large (mi_prices item))
           @ ''/RM'' @ str_int (family (mi_prices item))) @
        '' (R/L/F)'' @ nl @ ''  '' @ mi_description item @ nl
      else
        bullet @ '' '' @ mi_name item @ '' - RM'' @ str_int (mi_price item) @ nl @ ''  ''
          @ mi_description item @ nl)"

definition get_menu_by_category :: "snapshot \<Rightarrow> string \<Rightarrow> string" where
  "get_menu_by_category d cat =
     (case menu d cat of
        None \<Rightarrow> ''Sorry, that category doesn't exist.''
      | Some items \<Rightarrow>
          if items = [] then ''No '' @ cat @ '' available at the moment.''
          else fold (\<lambda>item result. result @ menu_line cat item) items
                 (pizza_sign @ '' '' @ upper cat @ '':'' @ nl))"

fun zone_loop :: "snapshot \<Rightarrow> string \<Rightarrow> delivery_zone list \<Rightarrow> string" where
  "zone_loop d area [] =
     ''Please call us to check if we deliver to your area: '' @ ri_phone (restaurant_info d)"
| "zone_loop d area (zone # zones) =
     (if str_in (lower area) (lower (dz_area zone)) then
        pin_sign @ '' '' @ dz_area zone @ '': Delivery '' @
        (if dz_delivery_fee zone = 0 then ''FREE'' else ''RM'' @ str_int (dz_delivery_fee zone)) @
        '' (Min order: RM'' @ str_int (dz_min_order zone) @ '', Time: '' @ dz_estimated_time zone
          @ '')''
      else zone_loop d area zones)"

definition check_delivery_area :: "snapshot \<Rightarrow> string \<Rightarrow> string" where
  "check_delivery_area d area = zone_loop d area (delivery_zones d)"

definition get_active_promotions :: "snapshot \<Rightarrow> string" where
  "get_active_promotions d =
     (let active_promos = filter (\<lambda>p. pr_is_active p = Some True) (promotions d)
      in if active_promos = [] then ''No active promotions at the moment.''
         else fold (\<lambda>promo result.
                result @ bullet @ '' '' @ pr_title promo @ '': '' @ pr_description promo @ nl)
              active_promos (party_sign @ '' CURRENT DEALS:'' @ nl))"

text \<open>\<open>get_popular_items\<close> reads \<open>self.data["menu"]["pizzas"]\<close> without a test.\<close>

definition get_popular_items :: "snapshot \<Rightarrow> py_error + string" where
  "get_popular_items d =
     (if popular_items (analytics d) = [] then
        Inr ''Our most popular items are Pepperoni and Margherita pizzas!''
      else
        case menu d ''pizzas'' of
          None \<Rightarrow> Inl KeyError
        | Some pizzas \<Rightarrow>
            Inr (fold (\<lambda>item result.
                   result @ bullet @ '' '' @
                   (case find (\<lambda>pizza. mi_id pizza = item_id item) pizzas of
                      None \<Rightarrow> ''Unknown Item'' | Some pizza \<Rightarrow> mi_name pizza) @
                   '' ('' @ str_int (order_count item) @ '' orders)'' @ nl)
                 (take 3 (popular_items (analytics d)))
                 (fire_sign @ '' POPULAR ITEMS:'' @ nl)))"

section \<open>\<open>handle_query\<close>\<close>

definition areas :: "string list" where
  "areas = [''klcc'', ''pj'', ''subang'', ''petaling'']"

text \<open>The loop inside the delivery rule returns at the first area found in the input and
  falls out of the rule when it finds none.\<close>

fun area_loop :: "snapshot \<Rightarrow> string \<Rightarrow> string list \<Rightarrow> string option" where
  "area_loop d u [] = None"
| "area_loop d u (area # rest) =
     (if str_in area u then Some (check_delivery_area d area) else area_loop d u rest)"

text \<open>The loop over \<open>self.data["questions"]\<close> that returns the answer of the first entry
  whose question is the best match.\<close>

fun answer_loop :: "qa list \<Rightarrow> string \<Rightarrow> string option" where
  "answer_loop [] best = None"
| "answer_loop (q # qs) best = (if question q = best then Some (answer q) else answer_loop qs best)"

text \<open>The knowledge base (the source's lines 167 to 176).\<close>

definition knowledge_base :: "snapshot \<Rightarrow> string \<Rightarrow> string option" where
  "knowledge_base d u =
     (case get_close_matches u (map question (questions d)) (6 / 10) of
        [] \<Rightarrow> None
      | best # others \<Rightarrow> answer_loop (questions d) best)"

text \<open>The rules after the delivery rule (lines 150 to 176).\<close>

definition after_delivery :: "snapshot \<Rightarrow> string \<Rightarrow> py_error + string option" where
  "after_delivery d u =
     (if list_ex (\<lambda>word. str_in word u) [''deal'', ''promotion'', ''discount'', ''offer''] then
        Inr (Some (get_active_promotions d))
      else if str_in ''popular'' u \<or> str_in ''recommend'' u then
        (case get_popular_items d of Inl e \<Rightarrow> Inl e | Inr r \<Rightarrow> Inr (Some r))
      else if str_in ''hour'' u \<or> str_in ''open'' u then
        Inr (Some (''We're open: '' @
          (case ri_hours (restaurant_info d) ''monday'' of
             None \<Rightarrow> ''Please call for hours'' | Some h \<Rightarrow> h)))
      else if str_in ''phone'' u \<or> str_in ''call'' u then
        Inr (Some (''Call us at: '' @ ri_phone (restaurant_info d)))
      else Inr (knowledge_base d u))"

text \<open>The condition of the delivery rule (lines 144 and 145).\<close>

definition delivery_rule :: "string \<Rightarrow> bool" where
  "delivery_rule u = (str_in ''deliver'' u \<and> list_ex (\<lambda>area. str_in area u) areas)"

text \<open>The rules from the delivery rule on (lines 144 to 176).\<close>

definition from_delivery :: "snapshot \<Rightarrow> string \<Rightarrow> py_error + string option" where
  "from_delivery d u =
     (case (if delivery_rule u then area_loop d u areas else None) of
        Some r \<Rightarrow> Inr (Some r)
      | None \<Rightarrow> after_delivery d u)"

text \<open>The body of \<open>handle_query\<close> on the snapshot \<open>d\<close> that \<open>self.data\<close> holds.\<close>

definition handle_query_on :: "snapshot \<Rightarrow> string \<Rightarrow> py_error + string option" where
  "handle_query_on d user_input =
     (let user_input_lower = lower user_input in
      if str_in ''pizza'' user_input_lower
         \<and> (str_in ''menu'' user_input_lower \<or> str_in ''what'' user_input_lower) then
        Inr (Some (get_menu_by_category d ''pizzas''))
      else if str_in ''side'' user_input_lower \<or> str_in ''appetizer'' user_input_lower then
        Inr (Some (get_menu_by_category d ''sides''))
      else if str_in ''drink'' user_input_lower \<or> str_in ''beverage'' user_input_lower then
        Inr (Some (get_menu_by_category d ''drinks''))
      else from_delivery d user_input_lower)"

text \<open>\<open>handle_query\<close> as a method: the result and the world after the call.\<close>

definition handle_query :: "world \<Rightarrow> string \<Rightarrow> (py_error + string option) \<times> world" where
  "handle_query w user_input =
     (case data w of
        None \<Rightarrow> (Inl AttributeError, w)
      | Some d \<Rightarrow> (handle_query_on d user_input, w))"

section \<open>The methods that write\<close>

text \<open>The clock is an input: \<open>now\<close> is \<open>datetime.now().isoformat()\<close>, and \<open>eta\<close> is the ISO
  text of the time forty minutes later.\<close>

definition learn_new_response :: "world \<Rightarrow> string \<Rightarrow> string \<Rightarrow> string \<Rightarrow> (py_error + unit) \<times> world" where
  "learn_new_response w q a now =
     (case data w of
        None \<Rightarrow> (Inl AttributeError, w)
      | Some d \<Rightarrow>
          save_data (w\<lparr>data := Some (d\<lparr>questions := questions d @
            [\<lparr>question = lower q, answer = a, category = ''general'', added_date = now\<rparr>]\<rparr>)\<rparr>))"

definition add_customer_order ::
  "world \<Rightarrow> (string \<rightharpoonup> string) \<Rightarrow> order_item list \<Rightarrow> string \<Rightarrow> string \<Rightarrow> (py_error + string) \<times> world" where
  "add_customer_order w customer_info items now eta =
     (case data w of
        None \<Rightarrow> (Inl AttributeError, w)
      | Some d \<Rightarrow>
          let oid = ''ORD'' @ format_03d (length (orders d) + 1);
              new_order =
                \<lparr>order_id = oid,
                 customer_name = (case customer_info ''name'' of None \<Rightarrow> [] | Some v \<Rightarrow> v),
                 o_phone = (case customer_info ''phone'' of None \<Rightarrow> [] | Some v \<Rightarrow> v),
                 o_address = (case customer_info ''address'' of None \<Rightarrow> [] | Some v \<Rightarrow> v),
                 o_items = items,
                 o_subtotal = sum_list (map oi_total items),
                 o_delivery_fee = 0,
                 o_status = ''received'',
                 order_time = now,
                 estimated_delivery = eta\<rparr>
          in case save_data (w\<lparr>data := Some (d\<lparr>orders := orders d @ [new_order]\<rparr>)\<rparr>) of
               (Inl e, w') \<Rightarrow> (Inl e, w')
             | (Inr u, w') \<Rightarrow> (Inr oid, w'))"

definition add_feedback :: "world \<Rightarrow> string \<Rightarrow> int \<Rightarrow> string \<Rightarrow> string \<Rightarrow> (py_error + string) \<times> world" where
  "add_feedback w oid rating comment now =
     (case data w of
        None \<Rightarrow> (Inl AttributeError, w)
      | Some d \<Rightarrow>
          (case save_data (w\<lparr>data := Some (d\<lparr>customer_feedback := customer_feedback d @
                  [\<lparr>fb_order_id = oid, fb_rating = rating, fb_comment = comment,
                    feedback_date = now\<rparr>]\<rparr>)\<rparr>) of
             (Inl e, w') \<Rightarrow> (Inl e, w')
           | (Inr u, w') \<Rightarrow> (Inr ''Thank you for your feedback!'', w')))"

section \<open>A world to evaluate on\<close>

definition world0 :: world where
  "world0 = \<lparr>data_file = ''pizza_data.json'', data = Some default_data, files = Map.empty\<rparr>"

section \<open>Start without a data file\<close>

text \<open>
  Claim C5.  When no data file exists, \<open>load_data\<close> catches \<open>FileNotFoundError\<close> and calls
  \<open>create_default_data\<close>, which calls \<open>save_data\<close> before \<open>__init__\<close> has assigned
  \<open>self.data\<close>.  So the constructor does not complete with the default snapshot: it
  raises \<open>AttributeError\<close>, and the file it has just opened for writing is left empty.
\<close>

theorem init_without_file:
  "fs fname = None \<Longrightarrow>
   fst (init fname fs) = Inl AttributeError \<and> files (snd (init fname fs)) fname = Some Empty_text"
  by (simp add: init_def load_data_def create_default_data_def save_data_def Let_def)

theorem init_without_file_witness:
  "fst (init ''pizza_data.json'' Map.empty) = Inl AttributeError
   \<and> files (snd (init ''pizza_data.json'' Map.empty)) ''pizza_data.json'' = Some Empty_text"
  using init_without_file [of Map.empty "''pizza_data.json''"] by simp

section \<open>Order identifiers\<close>

text \<open>The value of a string of decimal digits, and a number padded with zeros on the
  left to a width.\<close>

definition digits_value :: "string \<Rightarrow> nat" where
  "digits_value ds = fold (\<lambda>c acc. 10 * acc + ((of_char c :: nat) - 48)) ds 0"

definition zero_padded :: "nat \<Rightarrow> nat \<Rightarrow> string" where
  "zero_padded width n = replicate (width - length (str_nat n)) CHR ''0'' @ str_nat n"

lemma fold_digits_str_nat:
  "fold (\<lambda>c acc. 10 * acc + ((of_char c :: nat) - 48)) (str_nat n) 0 = n"
proof (induction n rule: str_nat.induct)
  case (1 n)
  show ?case
  proof (cases "n < 10")
    case True
    then show ?thesis by (subst str_nat.simps) (simp add: digit_char_def)
  next
    case False
    with 1 show ?thesis by (subst str_nat.simps) (simp add: digit_char_def)
  qed
qed

lemma funpow_times_zero: "(((*) 10) ^^ k) (0::nat) = 0"
  by (induction k) simp_all

lemma digits_value_zero_padded: "digits_value (zero_padded width n) = n"
  by (simp add: digits_value_def zero_padded_def funpow_times_zero fold_digits_str_nat)

lemma length_str_nat: "n < 1000 \<Longrightarrow> length (str_nat n) \<le> 3"
  by (subst str_nat.simps, subst str_nat.simps, subst str_nat.simps) simp

lemma length_zero_padded_3: "n < 1000 \<Longrightarrow> length (zero_padded 3 n) = 3"
  using length_str_nat[of n] by (simp add: zero_padded_def)

text \<open>
  Claim C8.  If the orders list holds \<open>N - 1\<close> records when \<open>add_customer_order\<close> is
  called, the call returns \<open>ORD\<close> followed by \<open>N\<close> padded with zeros to three digits: a
  digit string of value \<open>N\<close>, of length three while \<open>N < 1000\<close>.  The order appended to the
  list carries that identifier.
\<close>

theorem order_id_sequential:
  assumes "data w = Some d" "1 \<le> N" "length (orders d) = N - 1"
  shows "fst (add_customer_order w customer_info items now eta) = Inr (''ORD'' @ zero_padded 3 N)
     \<and> digits_value (zero_padded 3 N) = N
     \<and> (N < 1000 \<longrightarrow> length (zero_padded 3 N) = 3)
     \<and> map_option (\<lambda>d'. map order_id (orders d'))
          (data (snd (add_customer_order w customer_info items now eta)))
        = Some (map order_id (orders d) @ [''ORD'' @ zero_padded 3 N])"
proof -
  have "format_03d (length (orders d) + 1) = zero_padded 3 N"
    using assms(2,3) by (simp add: zero_padded_def format_03d_def)
  then show ?thesis
    using assms(1)
    by (simp add: add_customer_order_def save_data_def Let_def digits_value_zero_padded
        length_zero_padded_3)
qed

theorem order_id_sequential_witness:
  "fst (add_customer_order world0 Map.empty [] ''t0'' ''t1'') = Inr ''ORD001''"
proof -
  have 1: "data world0 = Some default_data" by (simp add: world0_def)
  have 2: "length (orders default_data) = 1 - 1" by (simp add: default_data_def)
  have 3: "''ORD'' @ zero_padded 3 1 = ''ORD001''" by code_simp
  show ?thesis
    using order_id_sequential [OF 1 _ 2, of Map.empty "[]" "''t0''" "''t1''"] 3 by simp
qed

section \<open>Who writes the store\<close>

text \<open>
  Claim C9.  \<open>handle_query\<close> leaves the whole world as it was, on every input and in
  every state.  \<open>learn_new_response\<close> appends one entry to the questions and changes no
  other field of the snapshot; the other two writers, \<open>add_customer_order\<close> and
  \<open>add_feedback\<close>, leave the questions alone.
\<close>

theorem handle_query_frame:
  "snd (handle_query w s) = w
   \<and> (\<forall>d. data w = Some d \<longrightarrow>
        (\<exists>e. data (snd (learn_new_response w q a now)) = Some (d\<lparr>questions := questions d @ [e]\<rparr>)))
   \<and> map_option questions (data (snd (add_customer_order w customer_info items now eta)))
       = map_option questions (data w)
   \<and> map_option questions (data (snd (add_feedback w oid rating comment now)))
       = map_option questions (data w)"
  by (auto simp: handle_query_def learn_new_response_def add_customer_order_def add_feedback_def
      save_data_def Let_def split: option.splits)

theorem handle_query_frame_witness:
  "snd (handle_query world0 ''any deals?'') = world0
   \<and> (\<exists>e. data (snd (learn_new_response world0 ''q'' ''a'' ''t0''))
            = Some (default_data\<lparr>questions := questions default_data @ [e]\<rparr>))"
proof -
  have 1: "data world0 = Some default_data" by (simp add: world0_def)
  show ?thesis
    using handle_query_frame [of world0 "''any deals?''" "''q''" "''a''" "''t0''"] 1 by blast
qed

section \<open>The rules in their order\<close>

text \<open>The intent rules as the ordered list of predicate and resolver that the
  specification describes, in the order of the source's conditionals.  The resolver of
  the delivery rule is the loop over the areas.\<close>

definition intent_rules ::
  "((string \<Rightarrow> bool) \<times> (snapshot \<Rightarrow> string \<Rightarrow> py_error + string option)) list" where
  "intent_rules =
     [(\<lambda>u. str_in ''pizza'' u \<and> (str_in ''menu'' u \<or> str_in ''what'' u),
       \<lambda>d u. Inr (Some (get_menu_by_category d ''pizzas''))),
      (\<lambda>u. str_in ''side'' u \<or> str_in ''appetizer'' u,
       \<lambda>d u. Inr (Some (get_menu_by_category d ''sides''))),
      (\<lambda>u. str_in ''drink'' u \<or> str_in ''beverage'' u,
       \<lambda>d u. Inr (Some (get_menu_by_category d ''drinks''))),
      (delivery_rule,
       \<lambda>d u. Inr (area_loop d u areas)),
      (\<lambda>u. list_ex (\<lambda>word. str_in word u) [''deal'', ''promotion'', ''discount'', ''offer''],
       \<lambda>d u. Inr (Some (get_active_promotions d))),
      (\<lambda>u. str_in ''popular'' u \<or> str_in ''recommend'' u,
       \<lambda>d u. (case get_popular_items d of Inl e \<Rightarrow> Inl e | Inr r \<Rightarrow> Inr (Some r))),
      (\<lambda>u. str_in ''hour'' u \<or> str_in ''open'' u,
       \<lambda>d u. Inr (Some (''We're open: '' @
          (case ri_hours (restaurant_info d) ''monday'' of
             None \<Rightarrow> ''Please call for hours'' | Some h \<Rightarrow> h)))),
      (\<lambda>u. str_in ''phone'' u \<or> str_in ''call'' u,
       \<lambda>d u. Inr (Some (''Call us at: '' @ ri_phone (restaurant_info d))))]"

lemma area_loop_None: "\<not> list_ex (\<lambda>area. str_in area u) as \<Longrightarrow> area_loop d u as = None"
  by (induction as) auto

lemma area_loop_Some:
  "list_ex (\<lambda>area. str_in area u) as \<Longrightarrow> \<exists>r. area_loop d u as = Some r"
  by (induction as) auto

lemma from_delivery_fires:
  "delivery_rule u \<Longrightarrow> from_delivery d u = Inr (area_loop d u areas)"
  using area_loop_Some[of u areas d] by (auto simp: from_delivery_def delivery_rule_def)

lemma from_delivery_skips:
  "\<not> delivery_rule u \<Longrightarrow> from_delivery d u = after_delivery d u"
  by (simp add: from_delivery_def)

lemma handle_query_on_find:
  "handle_query_on d s =
     (case find (\<lambda>r. fst r (lower s)) intent_rules of
        Some r \<Rightarrow> snd r d (lower s)
      | None \<Rightarrow> Inr (knowledge_base d (lower s)))"
proof (cases "delivery_rule (lower s)")
  case True
  then show ?thesis
    by (auto simp add: handle_query_on_def intent_rules_def Let_def from_delivery_fires)
next
  case False
  then show ?thesis
    by (auto simp add: handle_query_on_def intent_rules_def Let_def from_delivery_skips after_delivery_def)
qed

lemma find_first_index:
  "i < length xs \<Longrightarrow> P (xs ! i) \<Longrightarrow> \<forall>j<i. \<not> P (xs ! j) \<Longrightarrow> find P xs = Some (xs ! i)"
proof (induction xs arbitrary: i)
  case Nil
  then show ?case by simp
next
  case (Cons x xs)
  show ?case
  proof (cases i)
    case 0
    with Cons.prems show ?thesis by simp
  next
    case (Suc k)
    with Cons.prems have "\<not> P x" by auto
    moreover have "find P xs = Some (xs ! k)"
      using Cons.prems Suc by (intro Cons.IH) auto
    ultimately show ?thesis using Suc by simp
  qed
qed

text \<open>
  Claim C6.  The rule that is first in the fixed order among those whose predicate holds
  on the lowercased input gives the result of \<open>handle_query\<close>, whatever later rules hold
  too.
\<close>

theorem first_match_wins:
  assumes "i < length intent_rules" "fst (intent_rules ! i) (lower s)"
    and "\<forall>j<i. \<not> fst (intent_rules ! j) (lower s)"
  shows "handle_query_on d s = snd (intent_rules ! i) d (lower s)"
  using find_first_index[of i intent_rules "\<lambda>r. fst r (lower s)"] assms
  by (simp add: handle_query_on_find)

theorem first_match_wins_witness:
  "fst (intent_rules ! 4) (lower ''Call for DEALS'') \<and> fst (intent_rules ! 7) (lower ''Call for DEALS'')
   \<and> handle_query_on default_data ''Call for DEALS'' = Inr (Some ''No active promotions at the moment.'')"
proof -
  have 1: "4 < length intent_rules" by (simp add: intent_rules_def)
  have 2: "fst (intent_rules ! 4) (lower ''Call for DEALS'')" by code_simp
  have 3: "\<forall>j<4. \<not> fst (intent_rules ! j) (lower ''Call for DEALS'')"
  proof (intro allI impI)
    fix j :: nat
    assume "j < 4"
    then consider "j = 0" | "j = 1" | "j = 2" | "j = 3" by linarith
    then show "\<not> fst (intent_rules ! j) (lower ''Call for DEALS'')"
    proof cases
      case 1
      show ?thesis unfolding 1 by code_simp
    next
      case 2
      show ?thesis unfolding 2 by code_simp
    next
      case 3
      show ?thesis unfolding 3 by code_simp
    next
      case 4
      show ?thesis unfolding 4 by code_simp
    qed
  qed
  have 4: "snd (intent_rules ! 4) default_data (lower ''Call for DEALS'')
             = Inr (Some ''No active promotions at the moment.'')" by code_simp
  have 5: "fst (intent_rules ! 7) (lower ''Call for DEALS'')" by code_simp
  show ?thesis
    using first_match_wins [OF 1 2 3, of default_data] 2 4 5 by simp
qed

section \<open>The delivery rule\<close>

text \<open>
  Claim C3.  On an input that contains \<open>deliver\<close> and none of the area tokens \<open>klcc\<close>, \<open>pj\<close>,
  \<open>subang\<close>, \<open>petaling\<close> (after lowercasing), the delivery rule does not fire: no delivery
  response is built, and \<open>handle_query\<close> returns what the menu rules before it and the
  rules after it (promotions, popular items, hours, phone, knowledge base) return.
\<close>

theorem delivery_without_area:
  assumes "str_in ''deliver'' (lower s)"
    and "\<not> str_in ''klcc'' (lower s)" "\<not> str_in ''pj'' (lower s)"
    and "\<not> str_in ''subang'' (lower s)" "\<not> str_in ''petaling'' (lower s)"
  shows "\<not> delivery_rule (lower s)
     \<and> handle_query_on d s =
        (if str_in ''pizza'' (lower s) \<and> (str_in ''menu'' (lower s) \<or> str_in ''what'' (lower s))
         then Inr (Some (get_menu_by_category d ''pizzas''))
         else if str_in ''side'' (lower s) \<or> str_in ''appetizer'' (lower s)
         then Inr (Some (get_menu_by_category d ''sides''))
         else if str_in ''drink'' (lower s) \<or> str_in ''beverage'' (lower s)
         then Inr (Some (get_menu_by_category d ''drinks''))
         else after_delivery d (lower s))"
proof -
  have "\<not> delivery_rule (lower s)"
    using assms(2-5) by (simp add: delivery_rule_def areas_def)
  then show ?thesis
    by (auto simp add: handle_query_on_def Let_def from_delivery_skips)
qed

theorem delivery_without_area_witness:
  "str_in ''deliver'' (lower ''Do you deliver to Ipoh?'')
   \<and> \<not> delivery_rule (lower ''Do you deliver to Ipoh?'')
   \<and> handle_query_on default_data ''Do you deliver to Ipoh?'' = Inr None"
proof -
  have 1: "str_in ''deliver'' (lower ''Do you deliver to Ipoh?'')" by code_simp
  have 2: "\<not> str_in ''klcc'' (lower ''Do you deliver to Ipoh?'')" by code_simp
  have 3: "\<not> str_in ''pj'' (lower ''Do you deliver to Ipoh?'')" by code_simp
  have 4: "\<not> str_in ''subang'' (lower ''Do you deliver to Ipoh?'')" by code_simp
  have 5: "\<not> str_in ''petaling'' (lower ''Do you deliver to Ipoh?'')" by code_simp
  have 6: "handle_query_on default_data ''Do you deliver to Ipoh?'' = Inr None" by code_simp
  show ?thesis
    using delivery_without_area [OF 1 2 3 4 5, of default_data] 1 6 by simp
qed

section \<open>Duplicate questions\<close>

definition kb_twice :: snapshot where
  "kb_twice = default_data\<lparr>questions :=
     [\<lparr>question = ''ab'', answer = ''first'', category = ''general'', added_date = ''t0''\<rparr>,
      \<lparr>question = ''ab'', answer = ''second'', category = ''general'', added_date = ''t1''\<rparr>]\<rparr>"

lemma answer_loop_first:
  "i < length qs \<Longrightarrow> question (qs ! i) = best \<Longrightarrow> \<forall>j<i. question (qs ! j) \<noteq> best \<Longrightarrow>
   answer_loop qs best = Some (answer (qs ! i))"
proof (induction qs arbitrary: i)
  case Nil
  then show ?case by simp
next
  case (Cons q qs)
  show ?case
  proof (cases i)
    case 0
    with Cons.prems show ?thesis by simp
  next
    case (Suc k)
    with Cons.prems have "question q \<noteq> best" by auto
    moreover have "answer_loop qs best = Some (answer (qs ! k))"
      using Cons.prems Suc by (intro Cons.IH) auto
    ultimately show ?thesis using Suc by simp
  qed
qed

text \<open>
  Claim C10.  When no intent rule fires and the fuzzy match selects a question text, the
  answer returned is that of the earliest entry of the questions list with this text;
  the entries after it with the same text are never returned.
\<close>

theorem duplicate_question_first_answer:
  assumes "\<not> list_ex (\<lambda>r. fst r (lower s)) intent_rules"
    and "get_close_matches (lower s) (map question (questions d)) (6 / 10) = best # others"
    and "i < length (questions d)" "question (questions d ! i) = best"
    and "\<forall>j<i. question (questions d ! j) \<noteq> best"
  shows "handle_query_on d s = Inr (Some (answer (questions d ! i)))"
proof -
  have "find (\<lambda>r. fst r (lower s)) intent_rules = None"
    using assms(1) by (auto simp add: find_None_iff list_ex_iff)
  then show ?thesis
    using assms(2) answer_loop_first[OF assms(3-5)]
    by (simp add: handle_query_on_find knowledge_base_def)
qed

theorem duplicate_question_first_answer_witness:
  "answer (questions kb_twice ! 0) \<noteq> answer (questions kb_twice ! 1)
   \<and> question (questions kb_twice ! 0) = question (questions kb_twice ! 1)
   \<and> handle_query_on kb_twice ''ab'' = Inr (Some ''first'')"
proof -
  have 1: "\<not> list_ex (\<lambda>r. fst r (lower ''ab'')) intent_rules" by code_simp
  have 2: "get_close_matches (lower ''ab'') (map question (questions kb_twice)) (6 / 10) = ''ab'' # []"
    by code_simp
  have 3: "0 < length (questions kb_twice)" by (simp add: kb_twice_def)
  have 4: "question (questions kb_twice ! 0) = ''ab''" by (simp add: kb_twice_def)
  have 5: "\<forall>j<0. question (questions kb_twice ! j) \<noteq> ''ab''" by simp
  have 6: "answer (questions kb_twice ! 0) = ''first''" by (simp add: kb_twice_def)
  have 7: "answer (questions kb_twice ! 0) \<noteq> answer (questions kb_twice ! 1)
           \<and> question (questions kb_twice ! 0) = question (questions kb_twice ! 1)"
    by (simp add: kb_twice_def)
  show ?thesis
    using duplicate_question_first_answer [OF 1 2 3 4 5] 6 7 by simp
qed

section \<open>Normalisation of the input\<close>

lemma lower_char_idem: "lower_char (lower_char c) = lower_char c"
  by (simp add: lower_char_def)

lemma lower_idem: "lower (lower s) = lower s"
  by (simp add: lower_def lower_char_idem)

text \<open>
  Claim C4, as stated: \<open>handle_query\<close> gives the same result on the raw input and on its
  lowercased and trimmed form.  It does not: \<open>handle_query\<close> never trims.  With the
  question \<open>ab\<close> in the knowledge base, the input \<open>ab\<close> followed by four blanks scores
  \<open>1/2\<close> against it and is unresolved, while its trimmed form is answered.
\<close>

theorem handle_query_trim_counterexample:
  "fst (handle_query (world0\<lparr>data := Some kb_twice\<rparr>) ''ab    '')
     \<noteq> fst (handle_query (world0\<lparr>data := Some kb_twice\<rparr>) (lower (strip ''ab    '')))"
  by code_simp

text \<open>
  Claim C4, amended.  \<open>handle_query\<close> normalises its input by lowercasing only: on every
  input and in every state the call on the raw input and the call on the lowercased
  input are the same, result and world.
\<close>

theorem handle_query_lowercases:
  "handle_query w s = handle_query w (lower s)"
  by (simp add: handle_query_def handle_query_on_def lower_idem Let_def split: option.splits)


section \<open>The best match among ties\<close>

lemma max_loop_fold: "max_loop best items = fold max items best"
proof (induction items arbitrary: best)
  case Nil
  show ?case by simp
next
  case (Cons item items)
  have "(if best < item then item else best) = max item best"
    by (auto simp: max_def)
  then show ?case using Cons by simp
qed

lemma max_loop_Max: "max_loop best items = Max (set (best # items))"
  unfolding max_loop_fold by (rule Max.set_eq_fold [symmetric])

lemma nlargest1_Max:
  "result \<noteq> [] \<Longrightarrow> nlargest1 result = [Max (set result)]"
  by (cases result) (simp_all add: nlargest1_def max_loop_Max del: max_loop.simps)

text \<open>
  Claim C2, as stated: among candidates that share the maximum score, the one first in
  corpus order is returned.  It is not: for the word \<open>a\<close> the candidates \<open>ab\<close> and \<open>ac\<close>
  both score \<open>2/3\<close>, and the second one is returned.
\<close>

theorem first_in_corpus_counterexample:
  "ratio ''ab'' ''a'' = ratio ''ac'' ''a'' \<and> 6 / 10 \<le> ratio ''ab'' ''a''
   \<and> get_close_matches ''a'' [''ab'', ''ac''] (6 / 10) = [''ac'']"
  by code_simp

text \<open>
  Claim C2, amended.  \<open>nlargest\<close> takes the maximum of the pairs \<open>(score, candidate)\<close>, so a
  tie of scores is decided by the candidates' texts: whenever some candidate passes the
  cutoff, one candidate \<open>x\<close> that passes is returned, and every candidate \<open>y\<close> that passes
  has a smaller score, or the same score and a text that is not greater than \<open>x\<close> in
  lexicographic order.  The position in the corpus decides nothing.
\<close>

theorem best_match_tie_break:
  assumes "y \<in> set possibilities" "close_enough word cutoff y"
  shows "\<exists>x. get_close_matches word possibilities cutoff = [x]
           \<and> x \<in> set possibilities \<and> close_enough word cutoff x
           \<and> (ratio y word < ratio x word \<or> (ratio y word = ratio x word \<and> y \<le> x))"
proof -
  let ?S = "scored word possibilities cutoff"
  have yin: "(ratio y word, y) \<in> set ?S" using assms by (auto simp: scored_def)
  then have ne: "?S \<noteq> []" by auto
  define m where "m = Max (set ?S)"
  have min: "m \<in> set ?S" unfolding m_def using ne by (intro Max_in) auto
  have yle: "(ratio y word, y) \<le> m" unfolding m_def using yin by (intro Max_ge) auto
  have res: "get_close_matches word possibilities cutoff = [snd m]"
    by (simp add: get_close_matches_def nlargest1_Max[OF ne] m_def)
  from min obtain x where x: "m = (ratio x word, x)" "x \<in> set possibilities" "close_enough word cutoff x"
    by (auto simp: scored_def)
  from yle x(1) have "ratio y word < ratio x word \<or> (ratio y word = ratio x word \<and> y \<le> x)"
    by (auto simp: less_eq_prod_def)
  with res x show ?thesis by auto
qed

theorem best_match_tie_break_witness:
  "\<exists>x. get_close_matches ''a'' [''ab'', ''ac''] (6 / 10) = [x]
       \<and> x \<in> set [''ab'', ''ac''] \<and> close_enough ''a'' (6 / 10) x
       \<and> (ratio ''ab'' ''a'' < ratio x ''a'' \<or> (ratio ''ab'' ''a'' = ratio x ''a'' \<and> ''ab'' \<le> x))"
proof -
  have 1: "''ab'' \<in> set [''ab'', ''ac'']" by simp
  have 2: "close_enough ''a'' (6 / 10) ''ab''" by code_simp
  show ?thesis using best_match_tie_break [OF 1 2] .
qed

end
